theory Spec2Isabelle
  imports Main "HOL-Library.Sublist"
begin

section \<open>The workspace facade of coc (src/sources_non_forked/coc/src/workspace.ts)\<close>

text \<open>
  The class \<open>Workspace\<close> composes collaborators (configuration store, workspace-folder
  controller, document manager, content provider, watchers, autocmds, keymaps, locations,
  files) whose sources are not part of the file. Their methods are modelled as external
  calls: every call is appended to the list \<open>calls\<close>, and a host oracle says which calls
  raise. JavaScript exceptions are values: a statement that raises ends the method, and
  the statements after it are not run.
\<close>

subsection \<open>JavaScript values\<close>

text \<open>
  A string-typed property can hold \<open>undefined\<close> (\<open>None\<close>). The operator \<open>a || b\<close>
  yields \<open>a\<close> when \<open>a\<close> is truthy and \<open>b\<close> otherwise; \<open>undefined\<close> and the empty
  string are the falsy values of this type.
\<close>

type_synonym jsstring = "string option"

definition truthy :: "jsstring \<Rightarrow> bool" where
  "truthy v = (case v of None \<Rightarrow> False | Some s \<Rightarrow> s \<noteq> [])"

definition js_or :: "jsstring \<Rightarrow> jsstring \<Rightarrow> jsstring" where
  "js_or a b = (if truthy a then a else b)"

datatype jsval = JUndefined | JBool bool | JNum int | JStr string

subsection \<open>Template literals: an integer as decimal text\<close>

fun digits_of :: "nat \<Rightarrow> nat list" where
  "digits_of n = (if n < 10 then [n] else n mod 10 # digits_of (n div 10))"

declare digits_of.simps [simp del]

definition decimal_of_nat :: "nat \<Rightarrow> string" where
  "decimal_of_nat n = map (\<lambda>d. char_of (48 + d)) (rev (digits_of n))"

definition number_toString :: "int \<Rightarrow> string" where
  "number_toString i =
     (if 0 \<le> i then decimal_of_nat (nat i) else CHR ''-'' # decimal_of_nat (nat (- i)))"

subsection \<open>String.prototype.split, Array.prototype.slice and join\<close>

fun split_on :: "char \<Rightarrow> string \<Rightarrow> string list" where
  "split_on c [] = [[]]"
| "split_on c (x # xs) =
     (if x = c then [] # split_on c xs
      else (case split_on c xs of [] \<Rightarrow> [[x]] | y # ys \<Rightarrow> (x # y) # ys))"

text \<open>\<open>slice(b, e)\<close> for indices that are not negative: the elements \<open>b \<le> i < e\<close>.\<close>

definition slice :: "nat \<Rightarrow> nat \<Rightarrow> 'a list \<Rightarrow> 'a list" where
  "slice b e xs = take (e - b) (drop b xs)"

fun join :: "string \<Rightarrow> string list \<Rightarrow> string" where
  "join sep [] = []"
| "join sep [x] = x"
| "join sep (x # y # ys) = x @ sep @ join sep (y # ys)"

definition newline :: char where
  "newline = CHR 0x0A"

subsection \<open>The runtime: process, os, path, imported constants\<close>

text \<open>
  \<open>process.env.COC_VIMCONFIG\<close> is \<open>undefined\<close> when the variable is not set. The
  functions of Node's \<open>path\<close> module and the constants \<open>VERSION\<close> and
  \<open>CONFIG_FILE_NAME\<close> (imported from files that are not part of the source) are
  parameters. \<open>TEST\<close> is \<open>global.hasOwnProperty('__TEST__')\<close>.
\<close>

record runtime =
  COC_VIMCONFIG :: jsstring
  homedir :: string
  tmpdir :: string
  pid :: nat
  TEST :: bool
  path_normalize :: "string \<Rightarrow> string"
  path_join :: "string list \<Rightarrow> string"
  path_dirname :: "string \<Rightarrow> string"
  VERSION :: string
  CONFIG_FILE_NAME :: string

text \<open>
  Node's path for POSIX, used where a model is evaluated at a concrete input.
  \<open>normalize\<close> resolves \<open>.\<close> and \<open>..\<close> segments and runs of separators, keeps a
  trailing separator and returns \<open>.\<close> for the empty path; \<open>join\<close> joins the non-empty
  arguments with the separator and normalizes; \<open>dirname\<close> cuts the last segment.
\<close>

fun normalize_segments :: "bool \<Rightarrow> string list \<Rightarrow> string list \<Rightarrow> string list" where
  "normalize_segments allowAboveRoot acc [] = rev acc"
| "normalize_segments allowAboveRoot acc (s # ss) =
     (if s = [] \<or> s = ''.'' then normalize_segments allowAboveRoot acc ss
      else if s = ''..'' then
        (case acc of
           [] \<Rightarrow> normalize_segments allowAboveRoot (if allowAboveRoot then [s] else []) ss
         | a # as \<Rightarrow>
             if a = ''..'' then normalize_segments allowAboveRoot (if allowAboveRoot then s # acc else acc) ss
             else normalize_segments allowAboveRoot as ss)
      else normalize_segments allowAboveRoot (s # acc) ss)"

definition posix_normalize :: "string \<Rightarrow> string" where
  "posix_normalize p =
     (if p = [] then ''.''
      else
        let isAbsolute = (hd p = CHR ''/'');
            trailingSeparator = (last p = CHR ''/'');
            q = join ''/'' (normalize_segments (\<not> isAbsolute) [] (split_on (CHR ''/'') p))
        in if q = [] then (if isAbsolute then ''/'' else if trailingSeparator then ''./'' else ''.'')
           else (if isAbsolute then ''/'' else []) @ q @ (if trailingSeparator then ''/'' else []))"

definition posix_join :: "string list \<Rightarrow> string" where
  "posix_join args =
     (let joined = filter (\<lambda>a. a \<noteq> []) args
      in if joined = [] then ''.'' else posix_normalize (join ''/'' joined))"

definition posix_dirname :: "string \<Rightarrow> string" where
  "posix_dirname p =
     (if p = [] then ''.''
      else
        let hasRoot = (hd p = CHR ''/'');
            upto_slash = dropWhile (\<lambda>c. c \<noteq> CHR ''/'') (dropWhile (\<lambda>c. c = CHR ''/'') (rev p));
            cut = length upto_slash - 1
        in if length upto_slash \<le> 1 then (if hasRoot then ''/'' else ''.'')
           else if hasRoot \<and> cut = 1 then ''//''
           else take cut p)"

subsection \<open>Exceptions and external calls\<close>

record WorkspaceFolder =
  folder_uri :: string
  folder_name :: string

text \<open>The answer of the host to \<open>coc#util#vim_info\<close>, with the fields the file reads.\<close>

record Env =
  apiversion :: int
  isVim :: bool
  floating :: bool
  textprop :: bool
  completeOpt :: string
  workspaceFolders :: "WorkspaceFolder list"
  config :: "(string \<times> string) list"
  extensionRoot :: string

datatype call =
    NvimCall string
  | EchoError string
  | SetWorkspaceFolders "WorkspaceFolder list"
  | UpdateUserConfig "(string \<times> string) list"
  | FilesAttach Env
  | ContentProviderAttach
  | KeymapsAttach
  | AutocmdsAttach Env
  | LocationsAttach Env
  | WatchersAttach Env
  | DocumentsAttach "Env option"
  | DocumentsDetach
  | WorkspaceFolderReset
  | DocumentsReset
  | WatchersDispose
  | AutocmdsDispose
  | ContentProviderDispose
  | DocumentsDispose
  | ConfigurationsDispose
  | WindowApply string "jsval list"
  | MkdirpSync string

datatype exn = TypeError string | Raised call

text \<open>
  The host: which external calls raise, and what \<open>coc#util#vim_info\<close> answers.
\<close>

record host =
  throws :: "call \<Rightarrow> bool"
  vim_info :: Env

text \<open>
  The replacement surface \<open>window\<close> handed to \<open>init\<close>: an object whose properties are
  looked up by name; a property that is a function returns a value or raises.
\<close>

type_synonym window = "string \<Rightarrow> (jsval list \<Rightarrow> exn + jsval) option"

subsection \<open>The collaborators, as far as the facade reads them\<close>

text \<open>An event is the function object that subscribes a listener; it has an identity.\<close>

datatype event = Event nat

record Document =
  bufnr :: nat
  uri :: string
  languageId :: string

record Configurations =
  configurations_userConfigFile :: string
  configurations_onDidChange :: event

record WorkspaceFolderController =
  folders_onDidChangeWorkspaceFolders :: event

record Documents =
  documents_root :: jsstring
  documents_cwd :: jsstring
  documents_documents :: "Document list"
  documents_onDidOpenTextDocument :: event
  documents_onDidChangeDocument :: event
  documents_onDidCloseDocument :: event
  documents_onDidSaveTextDocument :: event
  documents_onWillSaveTextDocument :: event
  documents_onDidOpenTerminal :: event
  documents_onDidCloseTerminal :: event

record Watchers =
  watchers_onDidRuntimePathChange :: event

record Files =
  files_onDidCreateFiles :: event
  files_onDidRenameFiles :: event
  files_onDidDeleteFiles :: event
  files_onWillCreateFiles :: event
  files_onWillRenameFiles :: event
  files_onWillDeleteFiles :: event

text \<open>
  What \<open>new Configurations(userConfigFile, ...)\<close>, \<open>new WorkspaceFolderController(...)\<close>,
  \<open>new Documents(...)\<close>, \<open>new Watchers()\<close> and \<open>new Files(...)\<close> return. The content
  provider, autocmds, keymaps and locations expose no property that the facade reads;
  they appear through their calls only.
\<close>

record collaborators =
  new_Configurations :: "string \<Rightarrow> Configurations"
  new_WorkspaceFolderController :: WorkspaceFolderController
  new_Documents :: Documents
  new_Watchers :: Watchers
  new_Files :: Files

subsection \<open>The class Workspace\<close>

text \<open>
  The fields of the object, then the private \<open>_env\<close> (\<open>undefined\<close> until \<open>init\<close>), the
  accessors that \<open>init\<close> defines on the object (each getter closes over the \<open>window\<close>
  it was given), the external calls made so far, and the lines written by
  \<open>logger.warn\<close> (message and stack excerpt).
\<close>

record Workspace =
  onDidChangeConfiguration :: event
  onDidOpenTextDocument :: event
  onDidCloseTextDocument :: event
  onDidChangeTextDocument :: event
  onDidSaveTextDocument :: event
  onWillSaveTextDocument :: event
  onDidChangeWorkspaceFolders :: event
  onDidCloseTerminal :: event
  onDidOpenTerminal :: event
  onDidRuntimePathChange :: event
  onDidCreateFiles :: event
  onDidRenameFiles :: event
  onDidDeleteFiles :: event
  onWillCreateFiles :: event
  onWillRenameFiles :: event
  onWillDeleteFiles :: event
  version :: string
  configurations :: Configurations
  workspaceFolderControl :: WorkspaceFolderController
  documentsManager :: Documents
  watchers :: Watchers
  files :: Files
  env :: "Env option"
  accessors :: "string \<Rightarrow> window option"
  calls :: "call list"
  warnings :: "(string \<times> string) list"

definition APIVERSION :: int where
  "APIVERSION = 17"

definition methods :: "string list" where
  "methods =
     [''showMessage'', ''runTerminalCommand'', ''openTerminal'', ''showQuickpick'',
      ''menuPick'', ''openLocalConfig'', ''showPrompt'', ''createStatusBarItem'',
      ''createOutputChannel'', ''showOutputChannel'', ''requestInput'', ''echoLines'',
      ''getCursorPosition'', ''moveTo'', ''getOffset'', ''getSelectedRange'', ''selectRange'']"

text \<open>
  \<open>path.normalize\<close> checks its argument: a value that is not a string raises a TypeError.
\<close>

definition normalize :: "runtime \<Rightarrow> jsstring \<Rightarrow> exn + string" where
  "normalize rt v =
     (case v of
        None \<Rightarrow> Inl (TypeError ''The path argument must be of type string. Received undefined'')
      | Some s \<Rightarrow> Inr (path_normalize rt s))"

text \<open>
  The constructor (lines 75 to 104). \<open>home\<close> is
  \<open>path.normalize(process.env.COC_VIMCONFIG) || path.join(os.homedir(), '.vim')\<close>: the
  left operand is evaluated first, and the right one only when the left is the empty
  string.
\<close>

definition home :: "runtime \<Rightarrow> exn + string" where
  "home rt =
     (case normalize rt (COC_VIMCONFIG rt) of
        Inl e \<Rightarrow> Inl e
      | Inr n \<Rightarrow> Inr (if n \<noteq> [] then n else path_join rt [homedir rt, ''.vim'']))"

definition userConfigFile :: "runtime \<Rightarrow> exn + string" where
  "userConfigFile rt =
     (case home rt of
        Inl e \<Rightarrow> Inl e
      | Inr h \<Rightarrow> Inr (path_join rt [h, CONFIG_FILE_NAME rt]))"

definition constructor :: "runtime \<Rightarrow> collaborators \<Rightarrow> exn + Workspace" where
  "constructor rt cs =
     (case userConfigFile rt of
        Inl e \<Rightarrow> Inl e
      | Inr f \<Rightarrow>
          let cfg = new_Configurations cs f;
              wfc = new_WorkspaceFolderController cs;
              docs = new_Documents cs;
              ws = new_Watchers cs;
              fs = new_Files cs
          in Inr \<lparr>onDidChangeConfiguration = configurations_onDidChange cfg,
                  onDidOpenTextDocument = documents_onDidOpenTextDocument docs,
                  onDidCloseTextDocument = documents_onDidCloseDocument docs,
                  onDidChangeTextDocument = documents_onDidChangeDocument docs,
                  onDidSaveTextDocument = documents_onDidSaveTextDocument docs,
                  onWillSaveTextDocument = documents_onWillSaveTextDocument docs,
                  onDidChangeWorkspaceFolders = folders_onDidChangeWorkspaceFolders wfc,
                  onDidCloseTerminal = documents_onDidCloseTerminal docs,
                  onDidOpenTerminal = documents_onDidOpenTerminal docs,
                  onDidRuntimePathChange = watchers_onDidRuntimePathChange ws,
                  onDidCreateFiles = files_onDidCreateFiles fs,
                  onDidRenameFiles = files_onDidRenameFiles fs,
                  onDidDeleteFiles = files_onDidDeleteFiles fs,
                  onWillCreateFiles = files_onWillCreateFiles fs,
                  onWillRenameFiles = files_onWillRenameFiles fs,
                  onWillDeleteFiles = files_onWillDeleteFiles fs,
                  version = VERSION rt,
                  configurations = cfg,
                  workspaceFolderControl = wfc,
                  documentsManager = docs,
                  watchers = ws,
                  files = fs,
                  env = None,
                  accessors = (\<lambda>_. None),
                  calls = [],
                  warnings = []\<rparr>)"

subsection \<open>Getters (lines 134 to 148)\<close>

definition cwd :: "Workspace \<Rightarrow> jsstring" where
  "cwd this = documents_cwd (documentsManager this)"

definition root :: "Workspace \<Rightarrow> jsstring" where
  "root this = js_or (documents_root (documentsManager this)) (cwd this)"

definition rootPath :: "Workspace \<Rightarrow> jsstring" where
  "rootPath this = root this"

definition documents :: "Workspace \<Rightarrow> Document list" where
  "documents this = documents_documents (documentsManager this)"

subsection \<open>Statements in sequence\<close>

text \<open>
  A statement takes the object to the object after it and to the exception it raised, if
  any. \<open>invoke\<close> is a call of a collaborator's method: the call is made (it is added to
  \<open>calls\<close>) and raises when the host says so.
\<close>

type_synonym statement = "Workspace \<Rightarrow> Workspace \<times> exn option"

definition invoke :: "host \<Rightarrow> call \<Rightarrow> statement" where
  "invoke h c this =
     (this\<lparr>calls := calls this @ [c]\<rparr>, if throws h c then Some (Raised c) else None)"

fun sequence :: "statement list \<Rightarrow> statement" where
  "sequence [] this = (this, None)"
| "sequence (s # ss) this =
     (case s this of
        (this', None) \<Rightarrow> sequence ss this'
      | (this', Some e) \<Rightarrow> (this', Some e))"

subsection \<open>The deprecated methods (lines 108 to 118)\<close>

definition deprecation_message :: "string \<Rightarrow> string" where
  "deprecation_message m =
     ''workspace.'' @ m @ '' is deprecated, please use window.'' @ m @ '' instead.''"

text \<open>
  \<open>'\n' + Error().stack.split('\n').slice(2, 4).join('\n')\<close>, for the text \<open>stack\<close> that
  \<open>Error().stack\<close> holds at the invocation.
\<close>

definition stack_lines :: "string \<Rightarrow> string list" where
  "stack_lines stack = slice 2 4 (split_on newline stack)"

definition stack_excerpt :: "string \<Rightarrow> string" where
  "stack_excerpt stack = newline # join [newline] (stack_lines stack)"

text \<open>
  The function that the getter returns: it writes the warning, then applies
  \<open>window[method]\<close> to the arguments and returns what that returns. Applying a property
  that \<open>window\<close> does not have raises a TypeError.
\<close>

definition forward ::
  "window \<Rightarrow> string \<Rightarrow> string \<Rightarrow> jsval list \<Rightarrow> Workspace \<Rightarrow> Workspace \<times> (exn + jsval)" where
  "forward win m stack args this =
     (let this1 = this\<lparr>warnings := warnings this @ [(deprecation_message m, stack_excerpt stack)]\<rparr>
      in case win m of
           None \<Rightarrow> (this1, Inl (TypeError ''Cannot read properties of undefined (reading apply)''))
         | Some f \<Rightarrow> (this1\<lparr>calls := calls this1 @ [WindowApply m args]\<rparr>, f args))"

text \<open>
  \<open>Object.defineProperty(this, method, {get})\<close>: the property is not configurable, so
  defining it again raises a TypeError.
\<close>

definition defineProperty :: "window \<Rightarrow> string \<Rightarrow> statement" where
  "defineProperty win m this =
     (case accessors this m of
        Some _ \<Rightarrow> (this, Some (TypeError (''Cannot redefine property: '' @ m)))
      | None \<Rightarrow> (this\<lparr>accessors := (accessors this)(m \<mapsto> win)\<rparr>, None))"

text \<open>
  Reading \<open>workspace[method]\<close>: the getter runs and returns the forwarding function; a
  name with no accessor reads as \<open>undefined\<close>.
\<close>

definition read_accessor ::
  "string \<Rightarrow> Workspace \<Rightarrow>
     Workspace \<times> (string \<Rightarrow> jsval list \<Rightarrow> Workspace \<Rightarrow> Workspace \<times> (exn + jsval)) option" where
  "read_accessor m this = (this, map_option (\<lambda>win. forward win m) (accessors this m))"

text \<open>Invocations one after the other, the caller going on whatever each returns.\<close>

fun invocations ::
  "(string \<Rightarrow> jsval list \<Rightarrow> Workspace \<Rightarrow> Workspace \<times> (exn + jsval)) \<Rightarrow>
     (string \<times> jsval list) list \<Rightarrow> Workspace \<Rightarrow> Workspace" where
  "invocations f [] this = this"
| "invocations f ((stack, args) # rest) this = invocations f rest (fst (f stack args this))"

subsection \<open>init, attach, detach, reset, dispose\<close>

definition version_message :: "Env \<Rightarrow> string" where
  "version_message e =
     ''API version '' @ number_toString (apiversion e) @ '' is not '' @
     number_toString APIVERSION @
     '', please build coc.nvim by 'yarn install' after pull source code.''"

definition nvim_call :: "host \<Rightarrow> string \<Rightarrow> Workspace \<Rightarrow> Workspace \<times> (exn + Env)" where
  "nvim_call h fname this =
     (this\<lparr>calls := calls this @ [NvimCall fname]\<rparr>,
      if throws h (NvimCall fname) then Inl (Raised (NvimCall fname)) else Inr (vim_info h))"

definition attach :: "host \<Rightarrow> statement" where
  "attach h this = invoke h (DocumentsAttach (env this)) this"

definition init :: "host \<Rightarrow> window \<Rightarrow> statement" where
  "init h win this =
     (case sequence (map (defineProperty win) methods) this of
        (this1, Some e) \<Rightarrow> (this1, Some e)
      | (this1, None) \<Rightarrow>
          (case nvim_call h ''coc#util#vim_info'' this1 of
             (this2, Inl e) \<Rightarrow> (this2, Some e)
           | (this2, Inr e) \<Rightarrow>
               sequence
                 ((if apiversion e \<noteq> APIVERSION then [invoke h (EchoError (version_message e))]
                   else []) @
                  [invoke h (SetWorkspaceFolders (workspaceFolders e)),
                   invoke h (UpdateUserConfig (config e)),
                   invoke h (FilesAttach e),
                   invoke h ContentProviderAttach,
                   invoke h KeymapsAttach,
                   invoke h (AutocmdsAttach e),
                   invoke h (LocationsAttach e),
                   invoke h (WatchersAttach e),
                   attach h])
                 (this2\<lparr>env := Some e\<rparr>)))"

definition detach :: "host \<Rightarrow> statement" where
  "detach h this = invoke h DocumentsDetach this"

definition reset :: "host \<Rightarrow> statement" where
  "reset h = sequence [invoke h WorkspaceFolderReset, invoke h DocumentsReset]"

definition dispose :: "host \<Rightarrow> statement" where
  "dispose h =
     sequence
       [invoke h WatchersDispose,
        invoke h AutocmdsDispose,
        invoke h ContentProviderDispose,
        invoke h DocumentsDispose,
        invoke h ConfigurationsDispose]"

subsection \<open>createDatabase (lines 421 to 431)\<close>

text \<open>
  The result is the \<open>filepath\<close> given to \<open>new DB\<close>. Reading \<open>this.env.extensionRoot\<close>
  before \<open>init\<close> has set \<open>_env\<close> raises a TypeError.
\<close>

definition createDatabase :: "runtime \<Rightarrow> host \<Rightarrow> string \<Rightarrow> Workspace \<Rightarrow> Workspace \<times> (exn + string)" where
  "createDatabase rt h dbname this =
     (if TEST rt then
        (let dir = path_join rt [tmpdir rt, ''coc-'' @ decimal_of_nat (pid rt)]
         in case invoke h (MkdirpSync dir) this of
              (this', Some e) \<Rightarrow> (this', Inl e)
            | (this', None) \<Rightarrow> (this', Inr (path_join rt [dir, dbname @ ''.json''])))
      else
        (case env this of
           None \<Rightarrow> (this, Inl (TypeError ''Cannot read properties of undefined (reading extensionRoot)''))
         | Some e \<Rightarrow>
             (this, Inr (path_join rt [path_dirname rt (extensionRoot e), dbname @ ''.json'']))))"

subsection \<open>The events of the facade (lines 88 to 103)\<close>

text \<open>
  Each assignment \<open>this.onX = owner.onY\<close> of the constructor, as the pair of the
  facade's field and the owner's field.
\<close>

definition exported :: "Workspace \<Rightarrow> (event \<times> event) list" where
  "exported this =
     [(onDidRuntimePathChange this, watchers_onDidRuntimePathChange (watchers this)),
      (onDidChangeWorkspaceFolders this,
         folders_onDidChangeWorkspaceFolders (workspaceFolderControl this)),
      (onDidChangeConfiguration this, configurations_onDidChange (configurations this)),
      (onDidOpenTextDocument this, documents_onDidOpenTextDocument (documentsManager this)),
      (onDidChangeTextDocument this, documents_onDidChangeDocument (documentsManager this)),
      (onDidCloseTextDocument this, documents_onDidCloseDocument (documentsManager this)),
      (onDidSaveTextDocument this, documents_onDidSaveTextDocument (documentsManager this)),
      (onWillSaveTextDocument this, documents_onWillSaveTextDocument (documentsManager this)),
      (onDidOpenTerminal this, documents_onDidOpenTerminal (documentsManager this)),
      (onDidCloseTerminal this, documents_onDidCloseTerminal (documentsManager this)),
      (onDidCreateFiles this, files_onDidCreateFiles (files this)),
      (onDidRenameFiles this, files_onDidRenameFiles (files this)),
      (onDidDeleteFiles this, files_onDidDeleteFiles (files this)),
      (onWillCreateFiles this, files_onWillCreateFiles (files this)),
      (onWillRenameFiles this, files_onWillRenameFiles (files this)),
      (onWillDeleteFiles this, files_onWillDeleteFiles (files this))]"

text \<open>
  Modelled from the spec: the emitter behind an event is not part of the source. An event
  keeps its listeners; firing it hands the payload to each listener subscribed to it at
  that moment, and a listener sees its payloads in the order of the firings (section 5:
  event delivery within one subscriber preserves emission order).
\<close>

record bus =
  subscribers :: "event \<Rightarrow> nat list"
  inbox :: "nat \<Rightarrow> (event \<times> jsval) list"

definition subscribe :: "event \<Rightarrow> nat \<Rightarrow> bus \<Rightarrow> bus" where
  "subscribe e l b = b\<lparr>subscribers := (subscribers b)(e := subscribers b e @ [l])\<rparr>"

definition fire :: "event \<Rightarrow> jsval \<Rightarrow> bus \<Rightarrow> bus" where
  "fire e p b =
     b\<lparr>inbox := (\<lambda>l. if l \<in> set (subscribers b e) then inbox b l @ [(e, p)] else inbox b l)\<rparr>"

fun fires :: "(event \<times> jsval) list \<Rightarrow> bus \<Rightarrow> bus" where
  "fires [] b = b"
| "fires ((e, p) # rest) b = fires rest (fire e p b)"

subsection \<open>registerBufferSync (lines 433 to 435)\<close>

text \<open>
  Modelled from the spec: the class \<open>BufferSync\<close> (model/bufferSync) that
  \<open>registerBufferSync\<close> instantiates is not part of the source. Section 4.3: the factory
  is invoked for every currently open document and the results are stored keyed by
  document identity; it is invoked once per newly opened document; on document close, if
  a stored entry exists, its optional teardown capability is invoked, then the entry is
  removed, and if no entry exists nothing happens; disposal invokes teardown for every
  remaining entry, clears the mapping and stops observing the document model. The close is
  two steps, one after the other, and the registry keeps the list of what it has done, so
  that their order can be read.
\<close>

record SyncItem =
  item_state :: jsval
  item_dispose :: bool

text \<open>
  Modelled from the spec: what a registry does to its items, in the order in which it
  does it. \<open>Teardown k item\<close> is the invocation of the teardown of the item stored for
  document \<open>k\<close>; \<open>Removed k\<close> is the removal of the entry of \<open>k\<close> from the mapping.
\<close>

datatype sync_effect = Teardown nat SyncItem | Removed nat

record BufferSync =
  itemsMap :: "(nat \<times> SyncItem) list"
  effects :: "sync_effect list"
  observing :: bool

text \<open>Modelled from the spec: removing the entry of a document identity from the mapping.\<close>

definition remove_entry :: "nat \<Rightarrow> (nat \<times> SyncItem) list \<Rightarrow> (nat \<times> SyncItem) list" where
  "remove_entry k m = filter (\<lambda>kv. fst kv \<noteq> k) m"

text \<open>
  Modelled from the spec: a newly opened document. The factory is invoked once, and its
  result, unless it declines, is stored under the document's identity.
\<close>

definition on_open :: "(Document \<Rightarrow> SyncItem option) \<Rightarrow> Document \<Rightarrow> BufferSync \<Rightarrow> BufferSync" where
  "on_open create doc r =
     (if \<not> observing r then r
      else case create doc of
             None \<Rightarrow> r
           | Some item \<Rightarrow> r\<lparr>itemsMap := remove_entry (bufnr doc) (itemsMap r) @ [(bufnr doc, item)]\<rparr>)"

text \<open>
  Modelled from the spec: the first step of a close, the optional teardown capability.
  An item that exposes a teardown has it invoked; the mapping is not touched.
\<close>

definition invoke_teardown :: "nat \<Rightarrow> SyncItem \<Rightarrow> BufferSync \<Rightarrow> BufferSync" where
  "invoke_teardown k item r =
     (if item_dispose item then r\<lparr>effects := effects r @ [Teardown k item]\<rparr> else r)"

text \<open>Modelled from the spec: the second step of a close, the removal of the entry.\<close>

definition remove_stored :: "nat \<Rightarrow> BufferSync \<Rightarrow> BufferSync" where
  "remove_stored k r =
     r\<lparr>itemsMap := remove_entry k (itemsMap r), effects := effects r @ [Removed k]\<rparr>"

text \<open>
  Modelled from the spec: a closed document. With a stored entry, the teardown is invoked
  when the item has one, then the entry is removed; with no entry nothing happens.
\<close>

definition on_close :: "nat \<Rightarrow> BufferSync \<Rightarrow> BufferSync" where
  "on_close k r =
     (if \<not> observing r then r
      else case map_of (itemsMap r) k of
             None \<Rightarrow> r
           | Some item \<Rightarrow> remove_stored k (invoke_teardown k item r))"

text \<open>
  Modelled from the spec: disposal of the registry. Teardown for every remaining entry,
  the mapping cleared, the document model no longer observed.
\<close>

definition dispose_sync :: "BufferSync \<Rightarrow> BufferSync" where
  "dispose_sync r =
     r\<lparr>effects := effects r @
         map (\<lambda>kv. Teardown (fst kv) (snd kv)) (filter (\<lambda>kv. item_dispose (snd kv)) (itemsMap r)) @
         map (\<lambda>kv. Removed (fst kv)) (itemsMap r),
       itemsMap := [],
       observing := False\<rparr>"

text \<open>Modelled from the spec: close events for the given identities, in the given order.\<close>

fun closes :: "nat list \<Rightarrow> BufferSync \<Rightarrow> BufferSync" where
  "closes [] r = r"
| "closes (k # ks) r = closes ks (on_close k r)"

text \<open>
  Modelled from the spec: the document whose teardown an effect is, if it is a teardown.
\<close>

fun torn_down :: "sync_effect \<Rightarrow> nat option" where
  "torn_down (Teardown k item) = Some k"
| "torn_down (Removed k) = None"

text \<open>
  Modelled from the spec: registration. The factory is invoked at once for every
  currently open document.
\<close>

definition new_BufferSync :: "(Document \<Rightarrow> SyncItem option) \<Rightarrow> Document list \<Rightarrow> BufferSync" where
  "new_BufferSync create docs =
     foldl (\<lambda>r doc. on_open create doc r) \<lparr>itemsMap = [], effects = [], observing = True\<rparr> docs"

text \<open>Line 434: \<open>new BufferSync(create, this)\<close>, with the documents of the workspace.\<close>

definition registerBufferSync :: "(Document \<Rightarrow> SyncItem option) \<Rightarrow> Workspace \<Rightarrow> BufferSync" where
  "registerBufferSync create this = new_BufferSync create (documents this)"

subsection \<open>A concrete runtime, host and object\<close>

definition posix_runtime :: runtime where
  "posix_runtime =
     \<lparr>COC_VIMCONFIG = Some ''/home/u/.vim'', homedir = ''/home/u'', tmpdir = ''/tmp'',
      pid = 4242, TEST = False, path_normalize = posix_normalize, path_join = posix_join,
      path_dirname = posix_dirname, VERSION = ''0.0.81'',
      CONFIG_FILE_NAME = ''coc-settings.json''\<rparr>"

definition some_collaborators :: collaborators where
  "some_collaborators =
     \<lparr>new_Configurations =
        (\<lambda>f. \<lparr>configurations_userConfigFile = f, configurations_onDidChange = Event 0\<rparr>),
      new_WorkspaceFolderController = \<lparr>folders_onDidChangeWorkspaceFolders = Event 1\<rparr>,
      new_Documents =
        \<lparr>documents_root = Some ''/proj'', documents_cwd = Some ''/home/u'',
         documents_documents =
           [\<lparr>bufnr = 1, uri = ''file:///proj/a.ts'', languageId = ''typescript''\<rparr>,
            \<lparr>bufnr = 2, uri = ''file:///proj/b.txt'', languageId = ''plaintext''\<rparr>],
         documents_onDidOpenTextDocument = Event 2, documents_onDidChangeDocument = Event 3,
         documents_onDidCloseDocument = Event 4, documents_onDidSaveTextDocument = Event 5,
         documents_onWillSaveTextDocument = Event 6, documents_onDidOpenTerminal = Event 7,
         documents_onDidCloseTerminal = Event 8\<rparr>,
      new_Watchers = \<lparr>watchers_onDidRuntimePathChange = Event 9\<rparr>,
      new_Files =
        \<lparr>files_onDidCreateFiles = Event 10, files_onDidRenameFiles = Event 11,
         files_onDidDeleteFiles = Event 12, files_onWillCreateFiles = Event 13,
         files_onWillRenameFiles = Event 14, files_onWillDeleteFiles = Event 15\<rparr>\<rparr>"

definition some_env :: Env where
  "some_env =
     \<lparr>apiversion = 16, isVim = False, floating = True, textprop = False,
      completeOpt = ''menu,preview'',
      workspaceFolders = [\<lparr>folder_uri = ''file:///proj'', folder_name = ''proj''\<rparr>],
      config = [(''suggest.noselect'', ''true'')],
      extensionRoot = ''/home/u/.config/coc/extensions''\<rparr>"

definition quiet_host :: host where
  "quiet_host = \<lparr>throws = (\<lambda>c. False), vim_info = some_env\<rparr>"

definition some_window :: window where
  "some_window = (\<lambda>m. if m \<in> set methods then Some (\<lambda>args. Inr (JStr m)) else None)"

text \<open>The object that the constructor returns in this runtime.\<close>

definition new_workspace :: Workspace where
  "new_workspace =
     \<lparr>onDidChangeConfiguration = Event 0, onDidOpenTextDocument = Event 2,
      onDidCloseTextDocument = Event 4, onDidChangeTextDocument = Event 3,
      onDidSaveTextDocument = Event 5, onWillSaveTextDocument = Event 6,
      onDidChangeWorkspaceFolders = Event 1, onDidCloseTerminal = Event 8,
      onDidOpenTerminal = Event 7, onDidRuntimePathChange = Event 9,
      onDidCreateFiles = Event 10, onDidRenameFiles = Event 11, onDidDeleteFiles = Event 12,
      onWillCreateFiles = Event 13, onWillRenameFiles = Event 14,
      onWillDeleteFiles = Event 15, version = ''0.0.81'',
      configurations = new_Configurations some_collaborators ''/home/u/.vim/coc-settings.json'',
      workspaceFolderControl = new_WorkspaceFolderController some_collaborators,
      documentsManager = new_Documents some_collaborators,
      watchers = new_Watchers some_collaborators,
      files = new_Files some_collaborators,
      env = None, accessors = (\<lambda>_. None), calls = [], warnings = []\<rparr>"

text \<open>Hosts in which one step of \<open>dispose\<close> raises.\<close>

definition watchers_failing_host :: host where
  "watchers_failing_host = \<lparr>throws = (\<lambda>c. c = WatchersDispose), vim_info = some_env\<rparr>"

definition provider_failing_host :: host where
  "provider_failing_host = \<lparr>throws = (\<lambda>c. c = ContentProviderDispose), vim_info = some_env\<rparr>"

subsection \<open>The calls of init after the answer of the host\<close>

text \<open>
  The calls that \<open>init\<close> makes, in order, once the host has answered with \<open>e\<close> and as
  long as none of them raises (lines 120 to 131; \<open>attach\<close> is line 438).
\<close>

definition after_fetch :: "Env \<Rightarrow> call list" where
  "after_fetch e =
     (if apiversion e \<noteq> APIVERSION then [EchoError (version_message e)] else []) @
     [SetWorkspaceFolders (workspaceFolders e), UpdateUserConfig (config e),
      FilesAttach e, ContentProviderAttach, KeymapsAttach, AutocmdsAttach e,
      LocationsAttach e, WatchersAttach e, DocumentsAttach (Some e)]"

text \<open>The text of \<open>Error().stack\<close> at an invocation from an extension.\<close>

definition some_stack :: string where
  "some_stack =
     join [newline]
       [''Error'',
        ''    at Workspace.showMessage (workspace.ts:112:32)'',
        ''    at notify (extension.ts:40:15)'',
        ''    at activate (extension.ts:12:3)'',
        ''    at Extensions.load (extensions.ts:301:9)'']"

definition empty_bus :: bus where
  "empty_bus = \<lparr>subscribers = (\<lambda>_. []), inbox = (\<lambda>_. [])\<rparr>"

subsection \<open>Document events reaching a registry\<close>

text \<open>
  Modelled from the spec: the open and close events that the document model sends to a
  registry after its creation, handled one after the other (section 4.3), and the factory
  of the example of section 8, which accepts the documents of language \<open>typescript\<close>.
\<close>

datatype doc_event = Opened Document | Closed nat

fun deliver :: "(Document \<Rightarrow> SyncItem option) \<Rightarrow> doc_event list \<Rightarrow> BufferSync \<Rightarrow> BufferSync" where
  "deliver create [] r = r"
| "deliver create (Opened doc # evs) r = deliver create evs (on_open create doc r)"
| "deliver create (Closed k # evs) r = deliver create evs (on_close k r)"

definition typescript_only :: "Document \<Rightarrow> SyncItem option" where
  "typescript_only doc =
     (if languageId doc = ''typescript'' then Some \<lparr>item_state = JBool True, item_dispose = True\<rparr>
      else None)"

section \<open>Theorems\<close>

text \<open>
  C10. The getter \<open>rootPath\<close> returns the value of the getter \<open>root\<close>, and \<open>root\<close> is
  \<open>documentsManager.root\<close> when that is a non-empty string and the current working
  directory \<open>cwd\<close> (which is \<open>documentsManager.cwd\<close>) otherwise.
\<close>

theorem rootPath_is_root:
  "rootPath this = root this \<and>
   root this = (case documents_root (documentsManager this) of
                  None \<Rightarrow> cwd this
                | Some r \<Rightarrow> if r \<noteq> [] then Some r else cwd this)"
  by (simp add: rootPath_def root_def js_or_def truthy_def split: option.split)

theorem rootPath_is_root_witness:
  "rootPath new_workspace = Some ''/proj'' \<and> root new_workspace = Some ''/proj'' \<and>
   rootPath (new_workspace\<lparr>documentsManager :=
       (documentsManager new_workspace)\<lparr>documents_root := Some []\<rparr>\<rparr>) = Some ''/home/u'' \<and>
   rootPath (new_workspace\<lparr>documentsManager :=
       (documentsManager new_workspace)\<lparr>documents_root := None\<rparr>\<rparr>) = Some ''/home/u''"
  using rootPath_is_root [of new_workspace]
    rootPath_is_root [of "new_workspace\<lparr>documentsManager :=
       (documentsManager new_workspace)\<lparr>documents_root := Some []\<rparr>\<rparr>"]
    rootPath_is_root [of "new_workspace\<lparr>documentsManager :=
       (documentsManager new_workspace)\<lparr>documents_root := None\<rparr>\<rparr>"]
  by (simp add: cwd_def new_workspace_def some_collaborators_def)

subsection \<open>Statements in sequence, init and dispose\<close>

lemma constructor_new_workspace: "constructor posix_runtime some_collaborators = Inr new_workspace"
  by (simp add: constructor_def userConfigFile_def home_def normalize_def posix_runtime_def
      posix_normalize_def posix_join_def new_workspace_def some_collaborators_def Let_def)

lemma sequence_append:
  "sequence (xs @ ys) this =
     (case sequence xs this of (t, None) \<Rightarrow> sequence ys t | (t, Some e) \<Rightarrow> (t, Some e))"
  by (induction xs arbitrary: this) (auto split: prod.splits option.splits)

lemma invokes_all:
  "\<forall>c\<in>set cs. \<not> throws h c \<Longrightarrow>
   sequence (map (invoke h) cs) this = (this\<lparr>calls := calls this @ cs\<rparr>, None)"
  by (induction cs arbitrary: this) (auto simp: invoke_def)

lemma invokes_until:
  "\<forall>x\<in>set pre. \<not> throws h x \<Longrightarrow> throws h c \<Longrightarrow>
   sequence (map (invoke h) (pre @ c # post)) this =
     (this\<lparr>calls := calls this @ pre @ [c]\<rparr>, Some (Raised c))"
  by (induction pre arbitrary: this) (auto simp: invoke_def)

lemma defineProperty_None:
  "accessors this m = None \<Longrightarrow>
   defineProperty win m this = (this\<lparr>accessors := (accessors this)(m \<mapsto> win)\<rparr>, None)"
  by (simp add: defineProperty_def)

lemma defineProperty_Some:
  "accessors this m = Some w \<Longrightarrow>
   defineProperty win m this = (this, Some (TypeError (''Cannot redefine property: '' @ m)))"
  by (simp add: defineProperty_def)

lemma define_all:
  "sequence (map (defineProperty win) ms) this = (this1, None) \<Longrightarrow>
   this1 = this\<lparr>accessors := (\<lambda>m. if m \<in> set ms then Some win else accessors this m)\<rparr>"
proof (induction ms arbitrary: this)
  case Nil
  then show ?case by simp
next
  case (Cons m ms)
  show ?case
  proof (cases "accessors this m")
    case None
    let ?t = "this\<lparr>accessors := (accessors this)(m \<mapsto> win)\<rparr>"
    from Cons.prems None have "sequence (map (defineProperty win) ms) ?t = (this1, None)"
      by (simp add: defineProperty_None)
    from Cons.IH [OF this] show ?thesis
      by (auto simp: fun_eq_iff intro!: arg_cong [where f = "\<lambda>f. this\<lparr>accessors := f\<rparr>"])
  next
    case (Some w)
    with Cons.prems show ?thesis by (simp add: defineProperty_Some)
  qed
qed

lemma define_fresh:
  "distinct ms \<Longrightarrow> \<forall>m\<in>set ms. accessors this m = None \<Longrightarrow>
   sequence (map (defineProperty win) ms) this =
     (this\<lparr>accessors := (\<lambda>m. if m \<in> set ms then Some win else accessors this m)\<rparr>, None)"
proof (induction ms arbitrary: this)
  case Nil
  then show ?case by simp
next
  case (Cons m ms)
  let ?t = "this\<lparr>accessors := (accessors this)(m \<mapsto> win)\<rparr>"
  have "sequence (map (defineProperty win) ms) ?t =
     (?t\<lparr>accessors := (\<lambda>x. if x \<in> set ms then Some win else accessors ?t x)\<rparr>, None)"
    using Cons.prems by (intro Cons.IH) auto
  moreover have "(\<lambda>x. if x \<in> set ms then Some win else accessors ?t x) =
      (\<lambda>x. if x \<in> set (m # ms) then Some win else accessors this x)"
    by (auto simp: fun_eq_iff)
  ultimately show ?case using Cons.prems by (simp add: defineProperty_None)
qed

lemma invoke_ok:
  "\<not> throws h c \<Longrightarrow> invoke h c this = (this\<lparr>calls := calls this @ [c]\<rparr>, None)"
  by (simp add: invoke_def)

lemma invoke_raise:
  "throws h c \<Longrightarrow> invoke h c this = (this\<lparr>calls := calls this @ [c]\<rparr>, Some (Raised c))"
  by (simp add: invoke_def)

lemma invokes_env:
  "env (fst (sequence (map (invoke h) cs) this)) = env this"
  by (induction cs arbitrary: this) (auto simp: invoke_def)

lemma invokes_then_attach:
  "sequence (map (invoke h) cs @ [attach h]) this =
   sequence (map (invoke h) (cs @ [DocumentsAttach (env this)])) this"
proof -
  obtain t r where tr: "sequence (map (invoke h) cs) this = (t, r)"
    by (cases "sequence (map (invoke h) cs) this")
  with invokes_env [of h cs this] have "env t = env this" by simp
  with tr show ?thesis
    by (cases r) (simp_all add: sequence_append attach_def)
qed

lemma invokes_success:
  "sequence (map (invoke h) cs) this = (this', None) \<Longrightarrow>
   this' = this\<lparr>calls := calls this @ cs\<rparr> \<and> (\<forall>c\<in>set cs. \<not> throws h c)"
proof (induction cs arbitrary: this)
  case Nil
  then show ?case by simp
next
  case (Cons c cs)
  from Cons.prems have nt: "\<not> throws h c"
    by (cases "throws h c") (simp_all add: invoke_raise)
  with Cons.prems
  have "sequence (map (invoke h) cs) (this\<lparr>calls := calls this @ [c]\<rparr>) = (this', None)"
    by (simp add: invoke_ok)
  from Cons.IH [OF this] nt show ?case by simp
qed

lemma init_unfold:
  "init h win this =
     (case sequence (map (defineProperty win) methods) this of
        (this1, Some e) \<Rightarrow> (this1, Some e)
      | (this1, None) \<Rightarrow>
          if throws h (NvimCall ''coc#util#vim_info'')
          then (this1\<lparr>calls := calls this1 @ [NvimCall ''coc#util#vim_info'']\<rparr>,
                Some (Raised (NvimCall ''coc#util#vim_info'')))
          else sequence (map (invoke h) (after_fetch (vim_info h)))
                 (this1\<lparr>calls := calls this1 @ [NvimCall ''coc#util#vim_info''],
                        env := Some (vim_info h)\<rparr>))"
proof -
  have *: "sequence
        ((if apiversion e \<noteq> APIVERSION then [invoke h (EchoError (version_message e))]
          else []) @
         [invoke h (SetWorkspaceFolders (workspaceFolders e)),
          invoke h (UpdateUserConfig (config e)),
          invoke h (FilesAttach e),
          invoke h ContentProviderAttach,
          invoke h KeymapsAttach,
          invoke h (AutocmdsAttach e),
          invoke h (LocationsAttach e),
          invoke h (WatchersAttach e),
          attach h]) t = sequence (map (invoke h) (after_fetch e)) t" if "env t = Some e" for e t
  proof -
    let ?cs = "(if apiversion e \<noteq> APIVERSION then [EchoError (version_message e)] else []) @
       [SetWorkspaceFolders (workspaceFolders e), UpdateUserConfig (config e),
        FilesAttach e, ContentProviderAttach, KeymapsAttach, AutocmdsAttach e,
        LocationsAttach e, WatchersAttach e]"
    have "sequence (map (invoke h) ?cs @ [attach h]) t =
          sequence (map (invoke h) (?cs @ [DocumentsAttach (env t)])) t"
      by (rule invokes_then_attach)
    then show ?thesis using that
      by (cases "apiversion e \<noteq> APIVERSION") (simp_all add: after_fetch_def)
  qed
  show ?thesis
    by (simp add: init_def nvim_call_def * split: prod.splits option.splits)
qed

lemma distinct_methods: "distinct methods"
  by (simp add: methods_def)

lemma invokes_extend:
  "\<exists>more. calls (fst (sequence (map (invoke h) cs) u)) = calls u @ more"
proof (induction cs arbitrary: u)
  case Nil
  show ?case by simp
next
  case (Cons c cs)
  obtain more where
    "calls (fst (sequence (map (invoke h) cs) (u\<lparr>calls := calls u @ [c]\<rparr>))) =
     calls (u\<lparr>calls := calls u @ [c]\<rparr>) @ more"
    using Cons.IH by blast
  then show ?case
    by (cases "throws h c") (simp_all add: invoke_ok invoke_raise)
qed

lemma APIVERSION_text: "number_toString APIVERSION = ''17''"
  by code_simp

lemma init_success:
  assumes "init h win this = (this', None)"
  shows "this' = this\<lparr>accessors := (\<lambda>m. if m \<in> set methods then Some win else accessors this m),
                       calls := calls this @ NvimCall ''coc#util#vim_info'' # after_fetch (vim_info h),
                       env := Some (vim_info h)\<rparr>"
proof -
  obtain t r where d: "sequence (map (defineProperty win) methods) this = (t, r)"
    by (cases "sequence (map (defineProperty win) methods) this")
  with assms have r: "r = None"
    by (cases r) (simp_all add: init_unfold)
  with d have t: "t = this\<lparr>accessors := (\<lambda>m. if m \<in> set methods then Some win else accessors this m)\<rparr>"
    using define_all by blast
  from assms d r have nf: "\<not> throws h (NvimCall ''coc#util#vim_info'')"
    by (cases "throws h (NvimCall ''coc#util#vim_info'')") (simp_all add: init_unfold)
  with assms d r have "sequence (map (invoke h) (after_fetch (vim_info h)))
      (t\<lparr>calls := calls t @ [NvimCall ''coc#util#vim_info''], env := Some (vim_info h)\<rparr>) = (this', None)"
    by (simp add: init_unfold)
  from invokes_success [OF this] show ?thesis
    by (simp add: t)
qed

lemma init_quiet:
  "init quiet_host some_window new_workspace =
     (new_workspace\<lparr>accessors := (\<lambda>m. if m \<in> set methods then Some some_window else accessors new_workspace m),
                    calls := calls new_workspace @ NvimCall ''coc#util#vim_info'' # after_fetch some_env,
                    env := Some some_env\<rparr>, None)"
proof -
  have d: "sequence (map (defineProperty some_window) methods) new_workspace =
      (new_workspace\<lparr>accessors := (\<lambda>m. if m \<in> set methods then Some some_window
          else accessors new_workspace m)\<rparr>, None)"
    by (rule define_fresh [OF distinct_methods]) (simp add: new_workspace_def)
  have s: "\<forall>c\<in>set (after_fetch some_env). \<not> throws quiet_host c"
    by (simp add: quiet_host_def)
  have f: "\<not> throws quiet_host (NvimCall ''coc#util#vim_info'')" "vim_info quiet_host = some_env"
    by (simp_all add: quiet_host_def)
  show ?thesis
    by (simp add: init_unfold d f invokes_all [OF s])
qed

text \<open>The matching case: the same statements follow the answer of the host.\<close>

lemma init_version_match:
  assumes fresh: "\<forall>m\<in>set methods. accessors this m = None"
    and fetched: "\<not> throws h (NvimCall ''coc#util#vim_info'')"
    and matching: "apiversion (vim_info h) = APIVERSION"
  shows "init h win this =
           sequence
             [invoke h (SetWorkspaceFolders (workspaceFolders (vim_info h))),
              invoke h (UpdateUserConfig (config (vim_info h))),
              invoke h (FilesAttach (vim_info h)),
              invoke h ContentProviderAttach,
              invoke h KeymapsAttach,
              invoke h (AutocmdsAttach (vim_info h)),
              invoke h (LocationsAttach (vim_info h)),
              invoke h (WatchersAttach (vim_info h)),
              invoke h (DocumentsAttach (Some (vim_info h)))]
             (this\<lparr>accessors := (\<lambda>m. if m \<in> set methods then Some win else accessors this m),
                    env := Some (vim_info h),
                    calls := calls this @ [NvimCall ''coc#util#vim_info'']\<rparr>)"
proof -
  let ?t = "this\<lparr>accessors := (\<lambda>m. if m \<in> set methods then Some win else accessors this m)\<rparr>"
  have d: "sequence (map (defineProperty win) methods) this = (?t, None)"
    using define_fresh [OF distinct_methods fresh] .
  have i: "init h win this =
      sequence (map (invoke h) (after_fetch (vim_info h)))
        (?t\<lparr>calls := calls ?t @ [NvimCall ''coc#util#vim_info''], env := Some (vim_info h)\<rparr>)"
    using fetched by (simp add: init_unfold d)
  have a: "after_fetch (vim_info h) =
     [SetWorkspaceFolders (workspaceFolders (vim_info h)), UpdateUserConfig (config (vim_info h)),
      FilesAttach (vim_info h), ContentProviderAttach, KeymapsAttach, AutocmdsAttach (vim_info h),
      LocationsAttach (vim_info h), WatchersAttach (vim_info h),
      DocumentsAttach (Some (vim_info h))]"
    using matching by (simp add: after_fetch_def)
  have x: "?t\<lparr>calls := calls ?t @ [NvimCall ''coc#util#vim_info''], env := Some (vim_info h)\<rparr> =
      this\<lparr>accessors := (\<lambda>m. if m \<in> set methods then Some win else accessors this m),
           env := Some (vim_info h),
           calls := calls this @ [NvimCall ''coc#util#vim_info'']\<rparr>"
    by simp
  show ?thesis
    unfolding i a x by (simp only: list.map)
qed

text \<open>
  C1. When the answer of the host has an \<open>apiversion\<close> other than \<open>APIVERSION\<close> (17), on
  an object whose deprecated accessors are not defined yet and with a host that answers
  the request and takes the notification, \<open>init\<close> sends \<open>echoError\<close> with a message that
  names both versions and the remedy, and then goes on with the same statements as in
  the matching case: \<open>setWorkspaceFolders\<close> with the snapshot's folders and
  \<open>updateUserConfig\<close> with the snapshot's configuration come next, followed by the
  attach steps.
\<close>

theorem init_version_mismatch_continues:
  assumes fresh: "\<forall>m\<in>set methods. accessors this m = None"
    and fetched: "\<not> throws h (NvimCall ''coc#util#vim_info'')"
    and mismatch: "apiversion (vim_info h) \<noteq> APIVERSION"
    and notified: "\<not> throws h (EchoError (version_message (vim_info h)))"
  shows "init h win this =
           sequence
             [invoke h (SetWorkspaceFolders (workspaceFolders (vim_info h))),
              invoke h (UpdateUserConfig (config (vim_info h))),
              invoke h (FilesAttach (vim_info h)),
              invoke h ContentProviderAttach,
              invoke h KeymapsAttach,
              invoke h (AutocmdsAttach (vim_info h)),
              invoke h (LocationsAttach (vim_info h)),
              invoke h (WatchersAttach (vim_info h)),
              invoke h (DocumentsAttach (Some (vim_info h)))]
             (this\<lparr>accessors := (\<lambda>m. if m \<in> set methods then Some win else accessors this m),
                    env := Some (vim_info h),
                    calls := calls this @
                      [NvimCall ''coc#util#vim_info'',
                       EchoError
                         (''API version '' @ number_toString (apiversion (vim_info h)) @
                          '' is not 17, please build coc.nvim by 'yarn install' after pull source code.'')]\<rparr>) \<and>
         (\<not> throws h (SetWorkspaceFolders (workspaceFolders (vim_info h))) \<and>
          \<not> throws h (UpdateUserConfig (config (vim_info h))) \<longrightarrow>
          take 4 (drop (length (calls this)) (calls (fst (init h win this)))) =
            [NvimCall ''coc#util#vim_info'',
             EchoError (version_message (vim_info h)),
             SetWorkspaceFolders (workspaceFolders (vim_info h)),
             UpdateUserConfig (config (vim_info h))])"
proof -
  let ?e = "vim_info h"
  let ?t = "this\<lparr>accessors := (\<lambda>m. if m \<in> set methods then Some win else accessors this m)\<rparr>"
  have msg: "version_message ?e = ''API version '' @ number_toString (apiversion ?e) @
      '' is not 17, please build coc.nvim by 'yarn install' after pull source code.''"
    by (simp add: version_message_def APIVERSION_text)
  have d: "sequence (map (defineProperty win) methods) this = (?t, None)"
    using define_fresh [OF distinct_methods fresh] .
  have i: "init h win this =
      sequence (map (invoke h) (after_fetch ?e))
        (?t\<lparr>calls := calls ?t @ [NvimCall ''coc#util#vim_info''], env := Some ?e\<rparr>)"
    using fetched by (simp add: init_unfold d)
  have a: "after_fetch ?e = EchoError (version_message ?e) #
     [SetWorkspaceFolders (workspaceFolders ?e), UpdateUserConfig (config ?e),
      FilesAttach ?e, ContentProviderAttach, KeymapsAttach, AutocmdsAttach ?e,
      LocationsAttach ?e, WatchersAttach ?e, DocumentsAttach (Some ?e)]"
    using mismatch by (simp add: after_fetch_def)
  have first: "init h win this =
           sequence
             [invoke h (SetWorkspaceFolders (workspaceFolders ?e)),
              invoke h (UpdateUserConfig (config ?e)),
              invoke h (FilesAttach ?e),
              invoke h ContentProviderAttach,
              invoke h KeymapsAttach,
              invoke h (AutocmdsAttach ?e),
              invoke h (LocationsAttach ?e),
              invoke h (WatchersAttach ?e),
              invoke h (DocumentsAttach (Some ?e))]
             (this\<lparr>accessors := (\<lambda>m. if m \<in> set methods then Some win else accessors this m),
                    env := Some ?e,
                    calls := calls this @
                      [NvimCall ''coc#util#vim_info'', EchoError (version_message ?e)]\<rparr>)"
    unfolding i a using notified by (simp add: invoke_ok)
  have second: "take 4 (drop (length (calls this)) (calls (fst (init h win this)))) =
            [NvimCall ''coc#util#vim_info'', EchoError (version_message ?e),
             SetWorkspaceFolders (workspaceFolders ?e), UpdateUserConfig (config ?e)]"
    if s1: "\<not> throws h (SetWorkspaceFolders (workspaceFolders ?e))"
      and s2: "\<not> throws h (UpdateUserConfig (config ?e))"
  proof -
    let ?rest = "[FilesAttach ?e, ContentProviderAttach, KeymapsAttach, AutocmdsAttach ?e,
      LocationsAttach ?e, WatchersAttach ?e, DocumentsAttach (Some ?e)]"
    let ?u = "this\<lparr>accessors := (\<lambda>m. if m \<in> set methods then Some win else accessors this m),
                    env := Some ?e,
                    calls := calls this @
                      [NvimCall ''coc#util#vim_info'', EchoError (version_message ?e),
                       SetWorkspaceFolders (workspaceFolders ?e), UpdateUserConfig (config ?e)]\<rparr>"
    have "init h win this = sequence (map (invoke h) ?rest) ?u"
      unfolding first using s1 s2 by (simp add: invoke_ok)
    then obtain more where "calls (fst (init h win this)) = calls ?u @ more"
      using invokes_extend [of h ?rest ?u] by auto
    then show ?thesis by simp
  qed
  from first second show ?thesis unfolding msg by blast
qed

theorem init_version_mismatch_continues_witness:
  "snd (init quiet_host some_window new_workspace) = None \<and>
   calls (fst (init quiet_host some_window new_workspace)) =
     [NvimCall ''coc#util#vim_info'',
      EchoError ''API version 16 is not 17, please build coc.nvim by 'yarn install' after pull source code.'',
      SetWorkspaceFolders [\<lparr>folder_uri = ''file:///proj'', folder_name = ''proj''\<rparr>],
      UpdateUserConfig [(''suggest.noselect'', ''true'')],
      FilesAttach some_env, ContentProviderAttach, KeymapsAttach, AutocmdsAttach some_env,
      LocationsAttach some_env, WatchersAttach some_env, DocumentsAttach (Some some_env)]"
proof -
  have fresh: "\<forall>m\<in>set methods. accessors new_workspace m = None"
    by (simp add: new_workspace_def)
  have fetched: "\<not> throws quiet_host (NvimCall ''coc#util#vim_info'')"
    by (simp add: quiet_host_def)
  have mismatch: "apiversion (vim_info quiet_host) \<noteq> APIVERSION"
    by (simp add: quiet_host_def some_env_def APIVERSION_def)
  have notified: "\<not> throws quiet_host (EchoError (version_message (vim_info quiet_host)))"
    by (simp add: quiet_host_def)
  have n16: "number_toString 16 = ''16''"
    by code_simp
  have q: "\<And>c t. invoke quiet_host c t = (t\<lparr>calls := calls t @ [c]\<rparr>, None)"
    by (simp add: invoke_def quiet_host_def)
  have e: "vim_info quiet_host = some_env" "apiversion some_env = 16"
    "workspaceFolders some_env = [\<lparr>folder_uri = ''file:///proj'', folder_name = ''proj''\<rparr>]"
    "config some_env = [(''suggest.noselect'', ''true'')]"
    by (simp_all add: quiet_host_def some_env_def)
  have c: "calls new_workspace = []" "accessors new_workspace = (\<lambda>_. None)"
    by (simp_all add: new_workspace_def)
  from init_version_mismatch_continues [OF fresh fetched mismatch notified, of some_window]
  show ?thesis
    by (simp add: q e c n16)
qed

text \<open>
  C2. In every run of \<open>init\<close> that returns without an exception, the services are
  attached in the order files, content provider, keymaps, autocmds, locations, watchers,
  and the document manager is attached after all of them, as the last call of the run.
\<close>

theorem init_attaches_in_order:
  assumes "init h win this = (this', None)"
  shows "calls this' =
           calls this @
           NvimCall ''coc#util#vim_info'' #
           (if apiversion (vim_info h) \<noteq> APIVERSION
            then [EchoError (version_message (vim_info h))] else []) @
           [SetWorkspaceFolders (workspaceFolders (vim_info h)),
            UpdateUserConfig (config (vim_info h))] @
           [FilesAttach (vim_info h), ContentProviderAttach, KeymapsAttach,
            AutocmdsAttach (vim_info h), LocationsAttach (vim_info h),
            WatchersAttach (vim_info h), DocumentsAttach (Some (vim_info h))] \<and>
         last (calls this') = DocumentsAttach (Some (vim_info h))"
proof -
  from init_success [OF assms]
  have "calls this' = calls this @ NvimCall ''coc#util#vim_info'' # after_fetch (vim_info h)"
    by simp
  then show ?thesis
    by (simp add: after_fetch_def)
qed

theorem init_attaches_in_order_witness:
  "snd (init quiet_host some_window new_workspace) = None \<and>
   drop 4 (calls (fst (init quiet_host some_window new_workspace))) =
     [FilesAttach some_env, ContentProviderAttach, KeymapsAttach, AutocmdsAttach some_env,
      LocationsAttach some_env, WatchersAttach some_env, DocumentsAttach (Some some_env)]"
proof -
  have t: "init quiet_host some_window new_workspace =
             (fst (init quiet_host some_window new_workspace), None)"
    by (simp add: init_quiet)
  have e: "vim_info quiet_host = some_env" "apiversion some_env \<noteq> APIVERSION"
    "calls new_workspace = []"
    by (simp_all add: quiet_host_def some_env_def APIVERSION_def new_workspace_def)
  from init_attaches_in_order [OF t] show ?thesis
    by (simp add: e init_quiet)
qed

text \<open>
  C3, as stated, fails: when \<open>watchers.dispose()\<close> raises, \<open>dispose\<close> ends there and no
  later collaborator is disposed.
\<close>

theorem dispose_abandons_later_steps:
  "calls (fst (dispose watchers_failing_host new_workspace)) = [WatchersDispose] \<and>
   snd (dispose watchers_failing_host new_workspace) = Some (Raised WatchersDispose) \<and>
   AutocmdsDispose \<notin> set (calls (fst (dispose watchers_failing_host new_workspace)))"
  by (simp add: dispose_def invoke_def watchers_failing_host_def new_workspace_def)

text \<open>
  C3, amended. \<open>dispose\<close> calls \<open>dispose()\<close> on watchers, autocmds, content provider,
  document manager and configurations in that order; when none of them raises, all five
  are called; when one raises, the exception leaves \<open>dispose\<close> and the collaborators
  after it are not disposed.
\<close>

theorem dispose_in_order_until_failure:
  "((\<forall>c\<in>set [WatchersDispose, AutocmdsDispose, ContentProviderDispose, DocumentsDispose,
                ConfigurationsDispose]. \<not> throws h c) \<longrightarrow>
    dispose h this =
      (this\<lparr>calls := calls this @
         [WatchersDispose, AutocmdsDispose, ContentProviderDispose, DocumentsDispose,
          ConfigurationsDispose]\<rparr>, None)) \<and>
   (\<forall>pre c post.
      [WatchersDispose, AutocmdsDispose, ContentProviderDispose, DocumentsDispose,
       ConfigurationsDispose] = pre @ c # post \<and>
      (\<forall>x\<in>set pre. \<not> throws h x) \<and> throws h c \<longrightarrow>
      dispose h this = (this\<lparr>calls := calls this @ pre @ [c]\<rparr>, Some (Raised c)))"
proof -
  let ?cs = "[WatchersDispose, AutocmdsDispose, ContentProviderDispose, DocumentsDispose,
       ConfigurationsDispose]"
  have d: "dispose h this = sequence (map (invoke h) ?cs) this"
    by (simp add: dispose_def)
  show ?thesis
  proof (intro conjI impI allI)
    assume "\<forall>c\<in>set ?cs. \<not> throws h c"
    from invokes_all [OF this] show "dispose h this = (this\<lparr>calls := calls this @ ?cs\<rparr>, None)"
      unfolding d .
  next
    fix pre c post
    assume a: "?cs = pre @ c # post \<and> (\<forall>x\<in>set pre. \<not> throws h x) \<and> throws h c"
    then have "sequence (map (invoke h) (pre @ c # post)) this =
        (this\<lparr>calls := calls this @ pre @ [c]\<rparr>, Some (Raised c))"
      by (intro invokes_until) auto
    with a show "dispose h this = (this\<lparr>calls := calls this @ pre @ [c]\<rparr>, Some (Raised c))"
      unfolding d by metis
  qed
qed

theorem dispose_in_order_until_failure_witness:
  "dispose quiet_host new_workspace =
     (new_workspace\<lparr>calls := calls new_workspace @
        [WatchersDispose, AutocmdsDispose, ContentProviderDispose, DocumentsDispose,
         ConfigurationsDispose]\<rparr>, None) \<and>
   dispose provider_failing_host new_workspace =
     (new_workspace\<lparr>calls := calls new_workspace @
        [WatchersDispose, AutocmdsDispose] @ [ContentProviderDispose]\<rparr>,
      Some (Raised ContentProviderDispose))"
proof -
  have q: "\<forall>c\<in>set [WatchersDispose, AutocmdsDispose, ContentProviderDispose, DocumentsDispose,
                ConfigurationsDispose]. \<not> throws quiet_host c"
    by (simp add: quiet_host_def)
  have p: "[WatchersDispose, AutocmdsDispose, ContentProviderDispose, DocumentsDispose,
       ConfigurationsDispose] =
       [WatchersDispose, AutocmdsDispose] @ ContentProviderDispose #
       [DocumentsDispose, ConfigurationsDispose] \<and>
      (\<forall>x\<in>set [WatchersDispose, AutocmdsDispose]. \<not> throws provider_failing_host x) \<and>
      throws provider_failing_host ContentProviderDispose"
    by (simp add: provider_failing_host_def)
  from dispose_in_order_until_failure [of quiet_host new_workspace] q
  have 1: "dispose quiet_host new_workspace =
     (new_workspace\<lparr>calls := calls new_workspace @
        [WatchersDispose, AutocmdsDispose, ContentProviderDispose, DocumentsDispose,
         ConfigurationsDispose]\<rparr>, None)"
    by blast
  from dispose_in_order_until_failure [of provider_failing_host new_workspace] p
  have 2: "dispose provider_failing_host new_workspace =
     (new_workspace\<lparr>calls := calls new_workspace @
        [WatchersDispose, AutocmdsDispose] @ [ContentProviderDispose]\<rparr>,
      Some (Raised ContentProviderDispose))"
    by blast
  from 1 2 show ?thesis by blast
qed

subsection \<open>The deprecated methods\<close>

lemma forward_warns:
  "warnings (fst (forward win m stack args s)) =
     warnings s @ [(deprecation_message m, stack_excerpt stack)]"
  by (simp add: forward_def Let_def split: option.split)

lemma invocations_warnings:
  "length (warnings (invocations (forward win m) invs s)) = length (warnings s) + length invs"
proof (induction invs arbitrary: s)
  case Nil
  show ?case by simp
next
  case (Cons i invs)
  obtain stack args where i: "i = (stack, args)" by (cases i)
  show ?case
    by (simp add: i Cons.IH forward_warns)
qed

text \<open>
  C4. After a run of \<open>init\<close> that returns, for every name \<open>m\<close> of the list \<open>methods\<close>:
  reading the accessor leaves the object as it is (nothing is logged) and returns the
  forwarding function; every invocation of that function adds exactly one warning, so a
  list of invocations through one read adds as many warnings as it has invocations; and
  an invocation applies \<open>window[m]\<close> to the same arguments and returns what it returns.
\<close>

theorem deprecated_warns_once_per_invocation:
  assumes "init h win this = (this', None)" and "m \<in> set methods"
  shows "read_accessor m this' = (this', Some (forward win m)) \<and>
         (\<forall>stack args s.
            warnings (fst (forward win m stack args s)) =
              warnings s @ [(deprecation_message m, stack_excerpt stack)]) \<and>
         (\<forall>invs s.
            length (warnings (invocations (forward win m) invs s)) =
              length (warnings s) + length invs) \<and>
         (\<forall>f stack args s.
            win m = Some f \<longrightarrow>
              calls (fst (forward win m stack args s)) = calls s @ [WindowApply m args] \<and>
              snd (forward win m stack args s) = f args)"
proof -
  from init_success [OF assms(1)] assms(2) have "accessors this' m = Some win"
    by simp
  then have "read_accessor m this' = (this', Some (forward win m))"
    by (simp add: read_accessor_def)
  moreover have "calls (fst (forward win m stack args s)) = calls s @ [WindowApply m args] \<and>
              snd (forward win m stack args s) = f args" if "win m = Some f" for f stack args s
    using that by (simp add: forward_def Let_def)
  ultimately show ?thesis
    using forward_warns invocations_warnings by blast
qed

theorem deprecated_warns_once_per_invocation_witness:
  "map fst (warnings (invocations (forward some_window ''showMessage'')
       [(some_stack, [JStr ''hello'']), (some_stack, [JStr ''again''])]
       (fst (read_accessor ''showMessage'' (fst (init quiet_host some_window new_workspace)))))) =
     [''workspace.showMessage is deprecated, please use window.showMessage instead.'',
      ''workspace.showMessage is deprecated, please use window.showMessage instead.''] \<and>
   snd (read_accessor ''showMessage'' (fst (init quiet_host some_window new_workspace))) =
     Some (forward some_window ''showMessage'') \<and>
   warnings (fst (read_accessor ''showMessage'' (fst (init quiet_host some_window new_workspace)))) = [] \<and>
   snd (forward some_window ''showMessage'' some_stack [JStr ''hello'']
          (fst (init quiet_host some_window new_workspace))) = Inr (JStr ''showMessage'')"
proof -
  let ?t = "fst (init quiet_host some_window new_workspace)"
  have i: "init quiet_host some_window new_workspace = (?t, None)"
    by (simp add: init_quiet)
  have m: "''showMessage'' \<in> set methods"
    by (simp add: methods_def)
  have "warnings new_workspace = []"
    by (simp add: new_workspace_def)
  then have w: "warnings ?t = []"
    by (simp add: init_quiet)
  have g: "some_window ''showMessage'' = Some (\<lambda>args. Inr (JStr ''showMessage''))"
    by (simp add: some_window_def m)
  from deprecated_warns_once_per_invocation [OF i m] have
    r: "read_accessor ''showMessage'' ?t = (?t, Some (forward some_window ''showMessage''))"
    and o: "\<And>stack args s. warnings (fst (forward some_window ''showMessage'' stack args s)) =
              warnings s @ [(deprecation_message ''showMessage'', stack_excerpt stack)]"
    and d: "\<And>f stack args s. some_window ''showMessage'' = Some f \<Longrightarrow>
              snd (forward some_window ''showMessage'' stack args s) = f args"
    by blast+
  show ?thesis
    by (simp add: r o d [OF g] w deprecation_message_def)
qed

text \<open>
  C5, as stated, fails: \<open>slice(2, 4)\<close> keeps two lines of the stack, not three. For a
  stack of a header and four frames the excerpt holds the second and third frame only.
\<close>

theorem stack_excerpt_has_two_frames:
  "stack_lines some_stack =
     [''    at notify (extension.ts:40:15)'', ''    at activate (extension.ts:12:3)''] \<and>
   stack_lines some_stack \<noteq> slice 2 5 (split_on newline some_stack) \<and>
   stack_lines some_stack \<noteq> slice 1 4 (split_on newline some_stack) \<and>
   length (stack_lines some_stack) \<noteq> 3"
  by (simp add: stack_lines_def some_stack_def slice_def newline_def)

text \<open>
  C5, amended. The warning of an invocation is the message
  \<open>workspace.m is deprecated, please use window.m instead.\<close>, which names the replacement
  method, and an excerpt made of the lines of \<open>Error().stack\<close> at index 2 and 3 (at most
  two lines: the second and third frame below the header line), each after a newline.
\<close>

theorem deprecation_warning_content:
  "warnings (fst (forward win m stack args this)) =
     warnings this @
       [(''workspace.'' @ m @ '' is deprecated, please use window.'' @ m @ '' instead.'',
         newline # join [newline] (stack_lines stack))] \<and>
   stack_lines stack = take 2 (drop 2 (split_on newline stack)) \<and>
   (4 \<le> length (split_on newline stack) \<longrightarrow>
      stack_lines stack = [split_on newline stack ! 2, split_on newline stack ! 3])"
proof -
  have "take 2 (drop 2 xs) = [xs ! 2, xs ! 3]" if "4 \<le> length xs" for xs :: "string list"
  proof -
    from that obtain a b c d rest where "xs = a # b # c # d # rest"
      by (metis (no_types, opaque_lifting) Suc_le_length_iff numeral_eq_Suc pred_numeral_simps(2,3)
          semiring_norm(26,27))
    then show ?thesis by (simp add: numeral_eq_Suc)
  qed
  then show ?thesis
    by (simp add: forward_warns deprecation_message_def stack_excerpt_def stack_lines_def slice_def)
qed

theorem deprecation_warning_content_witness:
  "warnings (fst (forward some_window ''moveTo'' some_stack [JNum 3] new_workspace)) =
     [(''workspace.moveTo is deprecated, please use window.moveTo instead.'',
       newline # ''    at notify (extension.ts:40:15)'' @ newline #
       ''    at activate (extension.ts:12:3)'')]"
proof -
  have l: "4 \<le> length (split_on newline some_stack)"
    by (simp add: some_stack_def newline_def)
  have s: "split_on newline some_stack ! 2 = ''    at notify (extension.ts:40:15)''"
    "split_on newline some_stack ! 3 = ''    at activate (extension.ts:12:3)''"
    by (simp_all add: some_stack_def newline_def)
  have w: "warnings new_workspace = []"
    by (simp add: new_workspace_def)
  from deprecation_warning_content [of some_window "''moveTo''" some_stack "[JNum 3]" new_workspace] l
  have a: "warnings (fst (forward some_window ''moveTo'' some_stack [JNum 3] new_workspace)) =
     warnings new_workspace @
       [(''workspace.'' @ ''moveTo'' @ '' is deprecated, please use window.'' @ ''moveTo'' @ '' instead.'',
         newline # join [newline] (stack_lines some_stack))]"
    and b: "stack_lines some_stack = [split_on newline some_stack ! 2, split_on newline some_stack ! 3]"
    by blast+
  show ?thesis
    unfolding a b s w by simp
qed

subsection \<open>The events of the facade\<close>

lemma fire_subscribers: "subscribers (fire e p b) = subscribers b"
  by (simp add: fire_def)

lemma fires_same_inbox:
  "\<forall>e. (l1 \<in> set (subscribers b e)) = (l2 \<in> set (subscribers b e)) \<Longrightarrow>
   inbox b l1 = inbox b l2 \<Longrightarrow>
   inbox (fires evs b) l1 = inbox (fires evs b) l2"
proof (induction evs arbitrary: b)
  case Nil
  then show ?case by simp
next
  case (Cons ev evs)
  obtain e p where ev: "ev = (e, p)" by (cases ev)
  have "inbox (fires evs (fire e p b)) l1 = inbox (fires evs (fire e p b)) l2"
  proof (rule Cons.IH)
    show "\<forall>x. (l1 \<in> set (subscribers (fire e p b) x)) = (l2 \<in> set (subscribers (fire e p b) x))"
      using Cons.prems(1) by (simp add: fire_subscribers)
    show "inbox (fire e p b) l1 = inbox (fire e p b) l2"
      using Cons.prems by (simp add: fire_def)
  qed
  then show ?case by (simp add: ev)
qed

lemma alias_same_payloads:
  assumes "\<forall>e. (l1 \<in> set (subscribers b e)) = (l2 \<in> set (subscribers b e))"
    and "inbox b l1 = inbox b l2"
  shows "inbox (fires evs (subscribe c l1 (subscribe c l2 b))) l1 =
         inbox (fires evs (subscribe c l1 (subscribe c l2 b))) l2"
  by (rule fires_same_inbox) (use assms in \<open>auto simp: subscribe_def\<close>)

text \<open>
  C6. In the object that the constructor returns, each of the sixteen events of the
  facade is the very event of the collaborator that owns it (the same function object, not
  a wrapper). Hence a listener subscribed through the facade and a listener subscribed on
  the collaborator, starting alike, receive the same payloads in the same order, whatever
  is fired.
\<close>

theorem facade_events_are_aliases:
  assumes "constructor rt cs = Inr this"
  shows "onDidRuntimePathChange this = watchers_onDidRuntimePathChange (watchers this) \<and>
         onDidChangeWorkspaceFolders this =
           folders_onDidChangeWorkspaceFolders (workspaceFolderControl this) \<and>
         onDidChangeConfiguration this = configurations_onDidChange (configurations this) \<and>
         onDidOpenTextDocument this = documents_onDidOpenTextDocument (documentsManager this) \<and>
         onDidChangeTextDocument this = documents_onDidChangeDocument (documentsManager this) \<and>
         onDidCloseTextDocument this = documents_onDidCloseDocument (documentsManager this) \<and>
         onDidSaveTextDocument this = documents_onDidSaveTextDocument (documentsManager this) \<and>
         onWillSaveTextDocument this = documents_onWillSaveTextDocument (documentsManager this) \<and>
         onDidOpenTerminal this = documents_onDidOpenTerminal (documentsManager this) \<and>
         onDidCloseTerminal this = documents_onDidCloseTerminal (documentsManager this) \<and>
         onDidCreateFiles this = files_onDidCreateFiles (files this) \<and>
         onDidRenameFiles this = files_onDidRenameFiles (files this) \<and>
         onDidDeleteFiles this = files_onDidDeleteFiles (files this) \<and>
         onWillCreateFiles this = files_onWillCreateFiles (files this) \<and>
         onWillRenameFiles this = files_onWillRenameFiles (files this) \<and>
         onWillDeleteFiles this = files_onWillDeleteFiles (files this) \<and>
         (\<forall>fc\<in>set (exported this).
            fst fc = snd fc \<and>
            (\<forall>b l1 l2 evs.
               (\<forall>e. (l1 \<in> set (subscribers b e)) = (l2 \<in> set (subscribers b e))) \<and>
               inbox b l1 = inbox b l2 \<longrightarrow>
               inbox (fires evs (subscribe (fst fc) l1 (subscribe (snd fc) l2 b))) l1 =
               inbox (fires evs (subscribe (fst fc) l1 (subscribe (snd fc) l2 b))) l2))"
proof -
  from assms obtain f where f: "userConfigFile rt = Inr f"
    by (cases "userConfigFile rt") (simp_all add: constructor_def)
  from assms have obj: "this =
      \<lparr>onDidChangeConfiguration = configurations_onDidChange (new_Configurations cs f),
       onDidOpenTextDocument = documents_onDidOpenTextDocument (new_Documents cs),
       onDidCloseTextDocument = documents_onDidCloseDocument (new_Documents cs),
       onDidChangeTextDocument = documents_onDidChangeDocument (new_Documents cs),
       onDidSaveTextDocument = documents_onDidSaveTextDocument (new_Documents cs),
       onWillSaveTextDocument = documents_onWillSaveTextDocument (new_Documents cs),
       onDidChangeWorkspaceFolders =
         folders_onDidChangeWorkspaceFolders (new_WorkspaceFolderController cs),
       onDidCloseTerminal = documents_onDidCloseTerminal (new_Documents cs),
       onDidOpenTerminal = documents_onDidOpenTerminal (new_Documents cs),
       onDidRuntimePathChange = watchers_onDidRuntimePathChange (new_Watchers cs),
       onDidCreateFiles = files_onDidCreateFiles (new_Files cs),
       onDidRenameFiles = files_onDidRenameFiles (new_Files cs),
       onDidDeleteFiles = files_onDidDeleteFiles (new_Files cs),
       onWillCreateFiles = files_onWillCreateFiles (new_Files cs),
       onWillRenameFiles = files_onWillRenameFiles (new_Files cs),
       onWillDeleteFiles = files_onWillDeleteFiles (new_Files cs),
       version = VERSION rt,
       configurations = new_Configurations cs f,
       workspaceFolderControl = new_WorkspaceFolderController cs,
       documentsManager = new_Documents cs,
       watchers = new_Watchers cs,
       files = new_Files cs,
       env = None, accessors = (\<lambda>_. None), calls = [], warnings = []\<rparr>"
    by (simp add: constructor_def f Let_def)
  have eqs: "\<forall>fc\<in>set (exported this). fst fc = snd fc"
    unfolding exported_def by (simp add: obj)
  have obs: "inbox (fires evs (subscribe (fst fc) l1 (subscribe (snd fc) l2 b))) l1 =
             inbox (fires evs (subscribe (fst fc) l1 (subscribe (snd fc) l2 b))) l2"
    if "fc \<in> set (exported this)"
      and "\<forall>e. (l1 \<in> set (subscribers b e)) = (l2 \<in> set (subscribers b e))"
      and "inbox b l1 = inbox b l2" for fc b l1 l2 evs
    using eqs that alias_same_payloads [of l1 b l2 evs "snd fc"] by simp
  have fields: "onDidRuntimePathChange this = watchers_onDidRuntimePathChange (watchers this)"
    "onDidChangeWorkspaceFolders this =
           folders_onDidChangeWorkspaceFolders (workspaceFolderControl this)"
    "onDidChangeConfiguration this = configurations_onDidChange (configurations this)"
    "onDidOpenTextDocument this = documents_onDidOpenTextDocument (documentsManager this)"
    "onDidChangeTextDocument this = documents_onDidChangeDocument (documentsManager this)"
    "onDidCloseTextDocument this = documents_onDidCloseDocument (documentsManager this)"
    "onDidSaveTextDocument this = documents_onDidSaveTextDocument (documentsManager this)"
    "onWillSaveTextDocument this = documents_onWillSaveTextDocument (documentsManager this)"
    "onDidOpenTerminal this = documents_onDidOpenTerminal (documentsManager this)"
    "onDidCloseTerminal this = documents_onDidCloseTerminal (documentsManager this)"
    "onDidCreateFiles this = files_onDidCreateFiles (files this)"
    "onDidRenameFiles this = files_onDidRenameFiles (files this)"
    "onDidDeleteFiles this = files_onDidDeleteFiles (files this)"
    "onWillCreateFiles this = files_onWillCreateFiles (files this)"
    "onWillRenameFiles this = files_onWillRenameFiles (files this)"
    "onWillDeleteFiles this = files_onWillDeleteFiles (files this)"
    by (simp_all add: obj)
  from eqs obs fields show ?thesis by blast
qed

theorem facade_events_are_aliases_witness:
  "onDidOpenTextDocument new_workspace = Event 2 \<and>
   documents_onDidOpenTextDocument (documentsManager new_workspace) = Event 2 \<and>
   inbox (fires [(Event 2, JStr ''a.ts''), (Event 4, JStr ''a.ts''), (Event 2, JStr ''b.txt'')]
            (subscribe (onDidOpenTextDocument new_workspace) 1
              (subscribe (documents_onDidOpenTextDocument (documentsManager new_workspace)) 2
                 empty_bus))) 1 =
     [(Event 2, JStr ''a.ts''), (Event 2, JStr ''b.txt'')] \<and>
   inbox (fires [(Event 2, JStr ''a.ts''), (Event 4, JStr ''a.ts''), (Event 2, JStr ''b.txt'')]
            (subscribe (onDidOpenTextDocument new_workspace) 1
              (subscribe (documents_onDidOpenTextDocument (documentsManager new_workspace)) 2
                 empty_bus))) 2 =
     [(Event 2, JStr ''a.ts''), (Event 2, JStr ''b.txt'')]"
proof -
  have a: "onDidOpenTextDocument new_workspace = Event 2"
    by (simp add: new_workspace_def)
  from facade_events_are_aliases [OF constructor_new_workspace]
  have b: "onDidOpenTextDocument new_workspace =
           documents_onDidOpenTextDocument (documentsManager new_workspace)"
    by blast
  show ?thesis
    unfolding b [symmetric] a
    by (simp add: subscribe_def fire_def empty_bus_def)
qed

subsection \<open>The user configuration file and createDatabase\<close>

lemma userConfigFile_set:
  "COC_VIMCONFIG rt = Some v \<Longrightarrow> path_normalize rt v \<noteq> [] \<Longrightarrow>
   userConfigFile rt = Inr (path_join rt [path_normalize rt v, CONFIG_FILE_NAME rt])"
  by (simp add: userConfigFile_def home_def normalize_def)

lemma posix_normalize_not_empty: "posix_normalize p \<noteq> []"
  by (simp add: posix_normalize_def Let_def)

lemma userConfigFile_posix:
  "userConfigFile posix_runtime = Inr ''/home/u/.vim/coc-settings.json''"
  by (simp add: userConfigFile_def home_def normalize_def posix_runtime_def
      posix_normalize_def posix_join_def Let_def)

text \<open>
  C8. When \<open>COC_VIMCONFIG\<close> is not set, \<open>path.normalize\<close> receives \<open>undefined\<close> and raises
  before the operator \<open>||\<close> is reached: the constructor ends with a TypeError, and the
  default \<open>path.join(os.homedir(), '.vim')\<close> is not used.
\<close>

theorem constructor_without_COC_VIMCONFIG:
  "home (rt\<lparr>COC_VIMCONFIG := None\<rparr>) =
     Inl (TypeError ''The path argument must be of type string. Received undefined'') \<and>
   userConfigFile (rt\<lparr>COC_VIMCONFIG := None\<rparr>) =
     Inl (TypeError ''The path argument must be of type string. Received undefined'') \<and>
   constructor (rt\<lparr>COC_VIMCONFIG := None\<rparr>) cs =
     Inl (TypeError ''The path argument must be of type string. Received undefined'')"
  by (simp add: constructor_def userConfigFile_def home_def normalize_def)

theorem constructor_without_COC_VIMCONFIG_posix:
  "constructor (posix_runtime\<lparr>COC_VIMCONFIG := None\<rparr>) some_collaborators =
     Inl (TypeError ''The path argument must be of type string. Received undefined'') \<and>
   userConfigFile (posix_runtime\<lparr>COC_VIMCONFIG := None\<rparr>) \<noteq>
     Inr ''/home/u/.vim/coc-settings.json''"
  using constructor_without_COC_VIMCONFIG [of posix_runtime some_collaborators]
  by simp

text \<open>
  C9. The comment above \<open>createDatabase\<close> says that the instance is created at the
  extension root, and the file is to be \<open>name.json\<close> under that directory. The code takes
  \<open>path.dirname\<close> of \<open>env.extensionRoot\<close> instead: for the extension root
  \<open>/home/u/.config/coc/extensions\<close> and the name \<open>mru\<close> the file is
  \<open>/home/u/.config/coc/mru.json\<close>, beside the extension directory and not under it, where
  \<open>/home/u/.config/coc/extensions/mru.json\<close> is the file under it.
\<close>

theorem createDatabase_not_under_extensionRoot:
  "snd (createDatabase posix_runtime quiet_host ''mru''
          (fst (init quiet_host some_window new_workspace))) =
     Inr ''/home/u/.config/coc/mru.json'' \<and>
   extensionRoot some_env = ''/home/u/.config/coc/extensions'' \<and>
   \<not> prefix ''/home/u/.config/coc/extensions'' ''/home/u/.config/coc/mru.json'' \<and>
   posix_join [extensionRoot some_env, ''mru'' @ ''.json''] =
     ''/home/u/.config/coc/extensions/mru.json''"
proof -
  have d: "posix_dirname ''/home/u/.config/coc/extensions'' = ''/home/u/.config/coc''"
    by (simp add: posix_dirname_def Let_def)
  have j: "posix_join [''/home/u/.config/coc'', ''mru.json''] = ''/home/u/.config/coc/mru.json''"
    "posix_join [''/home/u/.config/coc/extensions'', ''mru.json''] =
       ''/home/u/.config/coc/extensions/mru.json''"
    by (simp_all add: posix_join_def posix_normalize_def Let_def)
  have e: "extensionRoot some_env = ''/home/u/.config/coc/extensions''"
    by (simp add: some_env_def)
  show ?thesis
    by (simp add: createDatabase_def init_quiet posix_runtime_def d j e)
qed

theorem createDatabase_not_under_extensionRoot_witness:
  "snd (createDatabase posix_runtime quiet_host ''mru''
          (fst (init quiet_host some_window new_workspace))) \<noteq>
     Inr ''/home/u/.config/coc/extensions/mru.json''"
  using createDatabase_not_under_extensionRoot by simp

subsection \<open>The per-document registry\<close>

lemma map_of_remove_entry:
  "map_of (remove_entry k m) k' = (if k' = k then None else map_of m k')"
  by (induction m) (auto simp: remove_entry_def)

lemma on_open_observing: "observing (on_open create doc r) = observing r"
  by (simp add: on_open_def split: option.split)

lemma on_close_observing: "observing (on_close k r) = observing r"
  by (simp add: on_close_def remove_stored_def invoke_teardown_def split: option.split)

lemma new_BufferSync_observing: "observing (new_BufferSync create docs)"
proof -
  have "observing (foldl (\<lambda>r doc. on_open create doc r) r docs) = observing r" for r
    by (induction docs arbitrary: r) (simp_all add: on_open_observing)
  then show ?thesis by (simp add: new_BufferSync_def)
qed

lemma deliver_observing: "observing (deliver create evs r) = observing r"
proof (induction evs arbitrary: r)
  case Nil
  show ?case by simp
next
  case (Cons ev evs)
  then show ?case
    by (cases ev) (simp_all add: on_open_observing on_close_observing)
qed

lemma invoke_teardown_itemsMap: "itemsMap (invoke_teardown k item r) = itemsMap r"
  by (simp add: invoke_teardown_def)

lemma invoke_teardown_effects:
  "effects (invoke_teardown k item r) =
     effects r @ (if item_dispose item then [Teardown k item] else [])"
  by (simp add: invoke_teardown_def)

lemma on_close_entry:
  "observing r \<Longrightarrow> map_of (itemsMap r) k = Some item \<Longrightarrow>
   on_close k r = remove_stored k (invoke_teardown k item r)"
  by (simp add: on_close_def)

lemma on_close_effects:
  "observing r \<Longrightarrow> map_of (itemsMap r) k = Some item \<Longrightarrow>
   effects (on_close k r) =
     effects r @ (if item_dispose item then [Teardown k item] else []) @ [Removed k]"
  by (simp add: on_close_entry remove_stored_def invoke_teardown_effects)

lemma on_close_itemsMap:
  "observing r \<Longrightarrow> map_of (itemsMap r) k = Some item \<Longrightarrow>
   itemsMap (on_close k r) = remove_entry k (itemsMap r)"
  by (simp add: on_close_entry remove_stored_def invoke_teardown_itemsMap)

lemma on_close_no_entry: "map_of (itemsMap r) k = None \<Longrightarrow> on_close k r = r"
  by (simp add: on_close_def)

lemma on_close_lookup:
  "observing r \<Longrightarrow>
   map_of (itemsMap (on_close k r)) k' = (if k' = k then None else map_of (itemsMap r) k')"
proof (cases "map_of (itemsMap r) k")
  case None
  then show ?thesis by (auto simp: on_close_no_entry)
next
  case (Some item)
  assume "observing r"
  from on_close_itemsMap [OF this Some] show ?thesis
    by (simp add: map_of_remove_entry)
qed

lemma on_close_teardowns:
  "observing r \<Longrightarrow>
   count_list (map torn_down (effects (on_close k r))) (Some k') =
     count_list (map torn_down (effects r)) (Some k') +
     (if k' = k \<and> (\<exists>item. map_of (itemsMap r) k = Some item \<and> item_dispose item) then 1 else 0)"
proof (cases "map_of (itemsMap r) k")
  case None
  then show ?thesis by (simp add: on_close_no_entry)
next
  case (Some item)
  assume "observing r"
  from on_close_effects [OF this Some] Some show ?thesis
    by simp
qed

lemma on_close_removals:
  "observing r \<Longrightarrow>
   count_list (effects (on_close k r)) (Removed k') =
     count_list (effects r) (Removed k') +
     (if k' = k \<and> map_of (itemsMap r) k \<noteq> None then 1 else 0)"
proof (cases "map_of (itemsMap r) k")
  case None
  then show ?thesis by (simp add: on_close_no_entry)
next
  case (Some item)
  assume "observing r"
  from on_close_effects [OF this Some] Some show ?thesis
    by simp
qed

lemma closes_observing: "observing (closes ks r) = observing r"
  by (induction ks arbitrary: r) (simp_all add: on_close_observing)

lemma closes_lookup:
  "observing r \<Longrightarrow>
   map_of (itemsMap (closes ks r)) k = (if k \<in> set ks then None else map_of (itemsMap r) k)"
proof (induction ks arbitrary: r)
  case Nil
  show ?case by simp
next
  case (Cons a ks)
  have "observing (on_close a r)"
    using Cons.prems by (simp add: on_close_observing)
  from Cons.IH [OF this] show ?case
    using Cons.prems by (simp add: on_close_lookup)
qed

lemma closes_teardowns:
  "observing r \<Longrightarrow>
   count_list (map torn_down (effects (closes ks r))) (Some k) =
     count_list (map torn_down (effects r)) (Some k) +
     (if k \<in> set ks \<and> (\<exists>item. map_of (itemsMap r) k = Some item \<and> item_dispose item)
      then 1 else 0)"
proof (induction ks arbitrary: r)
  case Nil
  show ?case by simp
next
  case (Cons a ks)
  have o: "observing (on_close a r)"
    using Cons.prems by (simp add: on_close_observing)
  show ?case
    using Cons.IH [OF o] Cons.prems
    by (simp add: on_close_lookup on_close_teardowns)
qed

lemma closes_removals:
  "observing r \<Longrightarrow>
   count_list (effects (closes ks r)) (Removed k) =
     count_list (effects r) (Removed k) +
     (if k \<in> set ks \<and> map_of (itemsMap r) k \<noteq> None then 1 else 0)"
proof (induction ks arbitrary: r)
  case Nil
  show ?case by simp
next
  case (Cons a ks)
  have o: "observing (on_close a r)"
    using Cons.prems by (simp add: on_close_observing)
  show ?case
    using Cons.IH [OF o] Cons.prems
    by (simp add: on_close_lookup on_close_removals)
qed

text \<open>
  C7. For every registry made by \<open>registerBufferSync\<close> and brought to any state by open and
  close events: closing a document for which the registry holds an entry first invokes the
  entry's teardown when it has one, the entry still being stored at that moment, and then
  removes the entry, in this order; closing a document with no entry (the factory
  declined, or the entry is already removed) changes nothing; and after any sequence of
  closes, in whatever order and with repetitions, exactly the closed documents have lost
  their entries, each teardown has been invoked exactly once and each entry has been
  removed exactly once.
\<close>

theorem close_removes_entry_once:
  assumes "r = deliver create evs (registerBufferSync create this)"
  shows "(\<forall>k item.
            map_of (itemsMap r) k = Some item \<longrightarrow>
              on_close k r = remove_stored k (invoke_teardown k item r) \<and>
              map_of (itemsMap (invoke_teardown k item r)) k = Some item \<and>
              effects (on_close k r) =
                effects r @ (if item_dispose item then [Teardown k item] else []) @ [Removed k] \<and>
              itemsMap (on_close k r) = remove_entry k (itemsMap r) \<and>
              map_of (itemsMap (on_close k r)) k = None) \<and>
         (\<forall>k. map_of (itemsMap r) k = None \<longrightarrow> on_close k r = r) \<and>
         (\<forall>k. on_close k (on_close k r) = on_close k r) \<and>
         (\<forall>ks k.
            map_of (itemsMap (closes ks r)) k =
              (if k \<in> set ks then None else map_of (itemsMap r) k) \<and>
            count_list (map torn_down (effects (closes ks r))) (Some k) =
              count_list (map torn_down (effects r)) (Some k) +
              (if k \<in> set ks \<and> (\<exists>item. map_of (itemsMap r) k = Some item \<and> item_dispose item)
               then 1 else 0) \<and>
            count_list (effects (closes ks r)) (Removed k) =
              count_list (effects r) (Removed k) +
              (if k \<in> set ks \<and> map_of (itemsMap r) k \<noteq> None then 1 else 0))"
proof -
  have o: "observing r"
    by (simp add: assms deliver_observing registerBufferSync_def new_BufferSync_observing)
  have twice: "on_close k (on_close k r) = on_close k r" for k
    by (rule on_close_no_entry) (simp add: on_close_lookup [OF o])
  have entry: "on_close k r = remove_stored k (invoke_teardown k item r) \<and>
      map_of (itemsMap (invoke_teardown k item r)) k = Some item \<and>
      effects (on_close k r) =
        effects r @ (if item_dispose item then [Teardown k item] else []) @ [Removed k] \<and>
      itemsMap (on_close k r) = remove_entry k (itemsMap r) \<and>
      map_of (itemsMap (on_close k r)) k = None"
    if "map_of (itemsMap r) k = Some item" for k item
    using on_close_entry [OF o that] on_close_effects [OF o that] on_close_itemsMap [OF o that]
      that
    by (simp add: invoke_teardown_itemsMap map_of_remove_entry)
  have none: "on_close k r = r" if "map_of (itemsMap r) k = None" for k
    using that by (rule on_close_no_entry)
  have many: "map_of (itemsMap (closes ks r)) k =
              (if k \<in> set ks then None else map_of (itemsMap r) k) \<and>
            count_list (map torn_down (effects (closes ks r))) (Some k) =
              count_list (map torn_down (effects r)) (Some k) +
              (if k \<in> set ks \<and> (\<exists>item. map_of (itemsMap r) k = Some item \<and> item_dispose item)
               then 1 else 0) \<and>
            count_list (effects (closes ks r)) (Removed k) =
              count_list (effects r) (Removed k) +
              (if k \<in> set ks \<and> map_of (itemsMap r) k \<noteq> None then 1 else 0)" for ks k
    using closes_lookup [OF o] closes_teardowns [OF o] closes_removals [OF o] by blast
  from entry none twice many show ?thesis
    by blast
qed

theorem close_removes_entry_once_witness:
  "itemsMap (registerBufferSync typescript_only new_workspace) =
     [(1, \<lparr>item_state = JBool True, item_dispose = True\<rparr>)] \<and>
   on_close 1 (registerBufferSync typescript_only new_workspace) =
     \<lparr>itemsMap = [],
      effects = [Teardown 1 \<lparr>item_state = JBool True, item_dispose = True\<rparr>, Removed 1],
      observing = True\<rparr> \<and>
   effects (on_close 1 (registerBufferSync typescript_only new_workspace)) \<noteq>
     [Removed 1, Teardown 1 \<lparr>item_state = JBool True, item_dispose = True\<rparr>] \<and>
   on_close 2 (registerBufferSync typescript_only new_workspace) =
     registerBufferSync typescript_only new_workspace \<and>
   effects (closes [2, 1, 2, 1] (registerBufferSync typescript_only new_workspace)) =
     effects (closes [1, 2] (registerBufferSync typescript_only new_workspace))"
proof -
  let ?r = "registerBufferSync typescript_only new_workspace"
  let ?item = "\<lparr>item_state = JBool True, item_dispose = True\<rparr>"
  have r: "?r = \<lparr>itemsMap = [(1, ?item)], effects = [], observing = True\<rparr>"
    by (simp add: registerBufferSync_def new_BufferSync_def documents_def new_workspace_def
        some_collaborators_def on_open_def typescript_only_def remove_entry_def)
  have d: "?r = deliver typescript_only [] ?r"
    by simp
  from close_removes_entry_once [OF d]
  have 1: "\<And>k item. map_of (itemsMap ?r) k = Some item \<Longrightarrow>
              effects (on_close k ?r) =
                effects ?r @ (if item_dispose item then [Teardown k item] else []) @ [Removed k] \<and>
              itemsMap (on_close k ?r) = remove_entry k (itemsMap ?r)"
    and 2: "\<And>k. map_of (itemsMap ?r) k = None \<Longrightarrow> on_close k ?r = ?r"
    by blast+
  have o: "observing (on_close 1 ?r)"
    by (simp add: on_close_observing r)
  have "effects (on_close 1 ?r) = [Teardown 1 ?item, Removed 1] \<and> itemsMap (on_close 1 ?r) = []"
    using 1 [of 1 ?item] by (simp add: r remove_entry_def)
  with o have a: "on_close 1 ?r =
     \<lparr>itemsMap = [], effects = [Teardown 1 ?item, Removed 1], observing = True\<rparr>"
    by (cases "on_close 1 ?r") simp
  have b: "on_close 2 ?r = ?r"
    using 2 [of 2] by (simp add: r)
  have c: "effects (closes [2, 1, 2, 1] ?r) = effects (closes [1, 2] ?r)"
    unfolding r
    by (simp add: on_close_def remove_entry_def remove_stored_def invoke_teardown_def)
  from r a b c show ?thesis by simp
qed

end
